theory Spec2Isabelle
  imports Complex_Main "HOL-Library.Code_Target_Numeral"
begin

section \<open>Python floats\<close>

text \<open>
  A Python \<^verbatim>\<open>float\<close> is an IEEE 754 double. The model takes a double to be the real
  number it denotes, and every operation on doubles to be the exact operation followed by
  rounding to the nearest double, ties to the even significand: \<open>fl\<close>. A double has a
  53-bit significand, and its least exponent is that of the subnormal numbers. Infinities
  and NaN are not modelled: \<open>fl\<close> is the rounding of a number of magnitude below
  \<open>2 ^ 1024\<close>, which every score and every crop size is.

  \<open>bit_length n\<close> is the number of binary digits of \<open>n\<close>, and \<open>binade a\<close>, for a
  positive \<open>a\<close>, is the exponent \<open>e\<close> with \<open>2 ^ e \<le> a < 2 ^ (e + 1)\<close>.
\<close>

fun bit_length :: "nat \<Rightarrow> nat" where
  "bit_length n = (if n = 0 then 0 else Suc (bit_length (n div 2)))"

declare bit_length.simps [simp del]

definition binade :: "real \<Rightarrow> int" where
  "binade a =
     (if 1 \<le> a then int (bit_length (nat \<lfloor>a\<rfloor>)) - 1
      else - int (bit_length (nat (\<lceil>1 / a\<rceil> - 1))))"

definition round_half_even :: "real \<Rightarrow> int" where
  "round_half_even x =
     (let f = \<lfloor>x\<rfloor>; d = x - of_int f
      in if d < 1 / 2 then f
         else if 1 / 2 < d then f + 1
         else if even f then f else f + 1)"

definition fl :: "real \<Rightarrow> real" where
  "fl x =
     (if x = 0 then 0
      else
        (let q = max (binade \<bar>x\<bar>) (- 1022) - 52
         in of_int (round_half_even (x / 2 powi q)) * 2 powi q))"

definition fadd :: "real \<Rightarrow> real \<Rightarrow> real" where
  "fadd a b = fl (a + b)"

definition fmul :: "real \<Rightarrow> real \<Rightarrow> real" where
  "fmul a b = fl (a * b)"

definition fdiv :: "real \<Rightarrow> real \<Rightarrow> real" where
  "fdiv a b = fl (a / b)"

section \<open>Colour classifier (outfitgenerator.py)\<close>

text \<open>
  \<^verbatim>\<open>categorize_color(hsv)\<close> unpacks a triple of Python integers and walks an
  \<^verbatim>\<open>if\<close> chain; the first test that holds returns. Python integers are unbounded, so
  the components are \<^typ>\<open>int\<close>; the result is the string the source returns.
\<close>

fun categorize_color :: "int \<times> int \<times> int \<Rightarrow> string" where
  "categorize_color (h, s, v) =
     (if s < 15 \<or> v < 20 then ''neutral''
      else if ((0 \<le> h \<and> h \<le> 15) \<or> (160 \<le> h \<and> h \<le> 179)) \<and> s > 40 then ''warm''
      else if 15 < h \<and> h \<le> 45 then ''warm''
      else if 45 < h \<and> h \<le> 120 then ''cool''
      else if 120 < h \<and> h \<le> 179 then ''cool''
      else ''neutral'')"

text \<open>
  The same chain, returning which \<^verbatim>\<open>return\<close> statement of the source is executed instead
  of the string it returns: lines 114, 118, 122, 126, 130 and the trailing line 133.
\<close>

datatype branch =
  LowSatOrDark | StrongRed | OrangeYellow | GreenCyanBlue | BlueMagenta | Fallback

fun categorize_branch :: "int \<times> int \<times> int \<Rightarrow> branch" where
  "categorize_branch (h, s, v) =
     (if s < 15 \<or> v < 20 then LowSatOrDark
      else if ((0 \<le> h \<and> h \<le> 15) \<or> (160 \<le> h \<and> h \<le> 179)) \<and> s > 40 then StrongRed
      else if 15 < h \<and> h \<le> 45 then OrangeYellow
      else if 45 < h \<and> h \<le> 120 then GreenCyanBlue
      else if 120 < h \<and> h \<le> 179 then BlueMagenta
      else Fallback)"

fun branch_result :: "branch \<Rightarrow> string" where
  "branch_result LowSatOrDark = ''neutral''"
| "branch_result StrongRed = ''warm''"
| "branch_result OrangeYellow = ''warm''"
| "branch_result GreenCyanBlue = ''cool''"
| "branch_result BlueMagenta = ''cool''"
| "branch_result Fallback = ''neutral''"

subsection \<open>The rule set as the specification words it\<close>

text \<open>
  Section 4.2 of the specification gives an ordered list of rules, "evaluated in order,
  first match wins", with a default. \<open>spec_rules\<close> is that list, written from the
  specification's wording and not from the source; \<open>first_match\<close> is its reading.
\<close>

type_synonym rule = "(int \<Rightarrow> int \<Rightarrow> int \<Rightarrow> bool) \<times> string"

definition spec_rules :: "rule list" where
  "spec_rules =
     [(\<lambda>h s v. s < 15 \<or> v < 20, ''neutral''),
      (\<lambda>h s v. (h \<in> {0..15} \<or> h \<in> {160..179}) \<and> s > 40, ''warm''),
      (\<lambda>h s v. h \<in> {15<..45}, ''warm''),
      (\<lambda>h s v. h \<in> {45<..120}, ''cool''),
      (\<lambda>h s v. h \<in> {120<..179}, ''cool'')]"

fun first_match :: "rule list \<Rightarrow> string \<Rightarrow> int \<Rightarrow> int \<Rightarrow> int \<Rightarrow> string" where
  "first_match [] dflt h s v = dflt"
| "first_match ((p, r) # rs) dflt h s v = (if p h s v then r else first_match rs dflt h s v)"

definition classify_spec :: "int \<Rightarrow> int \<Rightarrow> int \<Rightarrow> string" where
  "classify_spec h s v = first_match spec_rules ''neutral'' h s v"

section \<open>Dominant colour extraction (outfitgenerator.py)\<close>

text \<open>
  \<^verbatim>\<open>get_dominant_color_bgr\<close> does its work through three library calls: \<^verbatim>\<open>cv2.resize\<close>,
  the \<^verbatim>\<open>KMeans\<close> fit and \<^verbatim>\<open>cv2.cvtColor\<close>. They are parameters of the model. A call
  that raises is the value \<open>None\<close>; the source has no \<^verbatim>\<open>try\<close>, so the exception leaves
  the function as it is, and the model returns the error that names the library it came
  from. \<open>ColorExtractionError\<close> is the kind that section 7 of the specification names; no
  line of the source defines or raises it.

  An image is its list of rows of pixels, a pixel its three 8-bit channels. The crop
  fraction is a double, \<^verbatim>\<open>h * crop_size\<close> is the rounded product, and \<^verbatim>\<open>int\<close>, which
  truncates a non-negative number, is its floor.
\<close>

type_synonym bgr = "nat \<times> nat \<times> nat"
type_synonym hsv = "nat \<times> nat \<times> nat"
type_synonym image = "bgr list list"

datatype extraction_error = ColorExtractionError | Cv2Error | SklearnError | NumpyValueError

definition center_crop :: "image \<Rightarrow> real \<Rightarrow> image" where
  "center_crop image_bgr crop_size =
     (let h = length image_bgr;
          w = (case image_bgr of [] \<Rightarrow> 0 | row # _ \<Rightarrow> length row)
      in if 0 < crop_size \<and> crop_size < 1
         then
           (let ch = nat \<lfloor>fmul (real h) crop_size\<rfloor>;
                cw = nat \<lfloor>fmul (real w) crop_size\<rfloor>;
                y1 = (h - ch) div 2;
                x1 = (w - cw) div 2
            in map (\<lambda>row. take cw (drop x1 row)) (take ch (drop y1 image_bgr)))
         else image_bgr)"

text \<open>
  \<^verbatim>\<open>np.argmax\<close> returns the first index of the largest entry and raises \<^verbatim>\<open>ValueError\<close>
  on an empty sequence.
\<close>

fun argmax_from :: "nat \<Rightarrow> nat \<Rightarrow> nat \<Rightarrow> nat list \<Rightarrow> nat" where
  "argmax_from best_i best_v i [] = best_i"
| "argmax_from best_i best_v i (x # xs) =
     (if best_v < x then argmax_from i x (Suc i) xs else argmax_from best_i best_v (Suc i) xs)"

definition argmax :: "nat list \<Rightarrow> nat option" where
  "argmax xs = (case xs of [] \<Rightarrow> None | x # rest \<Rightarrow> Some (argmax_from 0 x 1 rest))"

text \<open>
  \<^verbatim>\<open>astype(np.uint8)\<close> on a cluster centre: the centres are means of 8-bit pixel values,
  between 0 and 255, where the cast drops the fraction.
\<close>

definition as_uint8 :: "real \<times> real \<times> real \<Rightarrow> bgr" where
  "as_uint8 c = (case c of (b, g, r) \<Rightarrow> (nat \<lfloor>b\<rfloor>, nat \<lfloor>g\<rfloor>, nat \<lfloor>r\<rfloor>))"

definition get_dominant_color_bgr ::
    "(image \<Rightarrow> image option) \<Rightarrow> (nat \<Rightarrow> bgr list \<Rightarrow> (real \<times> real \<times> real) list option)
     \<Rightarrow> (bgr \<Rightarrow> hsv) \<Rightarrow> image \<Rightarrow> nat \<Rightarrow> real \<Rightarrow> extraction_error + bgr" where
  "get_dominant_color_bgr resize kmeans_fit bgr2hsv image_bgr k crop_size =
     (let cropped = center_crop image_bgr crop_size
      in case resize cropped of
           None \<Rightarrow> Inl Cv2Error
         | Some img_small \<Rightarrow>
             (let pixels = concat img_small
              in case kmeans_fit k pixels of
                   None \<Rightarrow> Inl SklearnError
                 | Some cluster_centers \<Rightarrow>
                     (let centers = map as_uint8 cluster_centers;
                          centers_hsv = map bgr2hsv centers;
                          sats = map (\<lambda>(h, s, v). s) centers_hsv
                      in case argmax sats of
                           None \<Rightarrow> Inl NumpyValueError
                         | Some idx \<Rightarrow> Inr (centers ! idx))))"

section \<open>Pairwise colour score (wardrobe\_model.py)\<close>

text \<open>
  The three scores 3.0, 2.5 and 1.0 are doubles.
\<close>

definition pair_color_score :: "string \<Rightarrow> string \<Rightarrow> real" where
  "pair_color_score g1 g2 =
     (if g1 = ''neutral'' \<or> g2 = ''neutral'' then 3
      else if g1 = g2 then 5 / 2
      else 1)"

section \<open>Wardrobe store and outfit scoring (wardrobe\_model.py)\<close>

text \<open>
  The module-level list \<^verbatim>\<open>_ITEMS\<close> is passed explicitly: every function below takes the
  current contents of the store as an argument. An item is the dictionary that
  \<^verbatim>\<open>handle_new_item\<close> appends; its key \<^verbatim>\<open>"id"\<close> is the field \<open>item_id\<close> here.
  The embedding is a one-dimensional tensor, a list of numbers.
\<close>

record item =
  item_id :: string
  image_path :: string
  filename :: string
  category :: string
  color_group :: string
  embedding :: "real list"

record combo =
  ids :: "string list"
  groups :: "string list"
  embeds :: "real list list"

record capsule_day =
  day :: nat
  items :: "string list"

definition make_combo :: "item list \<Rightarrow> combo" where
  "make_combo item_list =
     \<lparr>ids = map item_id item_list,
      groups = map color_group item_list,
      embeds = map embedding item_list\<rparr>"

text \<open>
  The nested loops \<^verbatim>\<open>for i in range(n): for j in range(i + 1, n)\<close> occur three times in
  the source; \<open>index_pairs n\<close> is the sequence of pairs \<open>(i, j)\<close> they visit, in order.
\<close>

definition index_pairs :: "nat \<Rightarrow> (nat \<times> nat) list" where
  "index_pairs n = concat (map (\<lambda>i. map (\<lambda>j. (i, j)) [i + 1..<n]) [0..<n])"

definition outfit_color_score :: "string list \<Rightarrow> real" where
  "outfit_color_score gs =
     foldl (\<lambda>score (i, j). fadd score (pair_color_score (gs ! i) (gs ! j))) 0
       (index_pairs (length gs))"

text \<open>
  \<^verbatim>\<open>_cosine_sim\<close> calls the tensor library; it is a parameter of the model, a function
  from two embeddings to a double. \<^verbatim>\<open>np.mean\<close> adds the similarities in order, from 0,
  and divides the sum by their number; a combo has at most three items, so there are at
  most three similarities.
\<close>

type_synonym cosine = "real list \<Rightarrow> real list \<Rightarrow> real"

definition outfit_style_score :: "cosine \<Rightarrow> real list list \<Rightarrow> real" where
  "outfit_style_score cosine_sim es =
     (let sims = map (\<lambda>(i, j). cosine_sim (es ! i) (es ! j)) (index_pairs (length es))
      in if sims = [] then 0 else fdiv (foldl fadd 0 sims) (real (length sims)))"

subsection \<open>Building the outfits\<close>

text \<open>
  \<^verbatim>\<open>_build_30_outfits\<close> is split at its comments: the candidate combos (lines 180 to 200),
  their scores (lines 207 to 214), the ranked selection (lines 217 to 221), the padding loop
  (lines 224 and 225) and the function itself.
\<close>

definition build_combos :: "item list \<Rightarrow> combo list" where
  "build_combos its =
     (let tops = filter (\<lambda>it. category it = ''top'') its;
          bottoms = filter (\<lambda>it. category it = ''bottom'') its;
          jackets = filter (\<lambda>it. category it = ''jacket'') its
      in if tops \<noteq> [] \<and> bottoms \<noteq> []
         then concat (map (\<lambda>t. concat (map (\<lambda>b.
                make_combo [t, b] # map (\<lambda>j. make_combo [t, b, j]) jackets) bottoms)) tops)
         else map (\<lambda>(i, j). make_combo [its ! i, its ! j]) (index_pairs (length its)))"

text \<open>
  The weights are the doubles that the literals \<^verbatim>\<open>0.6\<close> and \<^verbatim>\<open>0.4\<close> denote.
\<close>

definition w_color :: real where
  "w_color = fl (6 / 10)"

definition w_style :: real where
  "w_style = fl (4 / 10)"

definition score_combos :: "cosine \<Rightarrow> combo list \<Rightarrow> (real \<times> string list) list" where
  "score_combos cosine_sim combos =
     map (\<lambda>c. (fadd (fmul w_color (outfit_color_score (groups c)))
                   (fmul w_style (outfit_style_score cosine_sim (embeds c))), ids c)) combos"

text \<open>
  \<^verbatim>\<open>scored.sort(key=lambda x: x[0], reverse=True)\<close> is a stable sort by descending score:
  entries of equal score keep their order. \<open>sort_key\<close> on the negated score is that sort.
\<close>

definition top_ranked :: "cosine \<Rightarrow> combo list \<Rightarrow> string list list" where
  "top_ranked cosine_sim combos =
     (let scored = sort_key (\<lambda>x. - fst x) (score_combos cosine_sim combos);
          top_k = min 31 (length scored)
      in map snd (take top_k scored))"

function pad_loop :: "'a list \<Rightarrow> 'a list" where
  "pad_loop best =
     (if length best < 31 \<and> best \<noteq> []
      then pad_loop (best @ take (31 - length best) best)
      else best)"
  by pat_completeness auto
termination
proof (relation "measure (\<lambda>best. 31 - length best)")
  fix best :: "'a list"
  assume "length best < 31 \<and> best \<noteq> []"
  then show "(best @ take (31 - length best) best, best) \<in> measure (\<lambda>best. 31 - length best)"
    by (cases best) (auto simp: min_def)
qed simp

declare pad_loop.simps [simp del]

definition build_30_outfits :: "cosine \<Rightarrow> item list \<Rightarrow> string list list" where
  "build_30_outfits cosine_sim its =
     (let combos = build_combos its
      in if combos = [] then take 30 (map (\<lambda>it. [item_id it]) its)
         else take 31 (pad_loop (top_ranked cosine_sim combos)))"

definition generate_capsule ::
    "cosine \<Rightarrow> item list \<Rightarrow> capsule_day list \<times> (string \<rightharpoonup> item)" where
  "generate_capsule cosine_sim its =
     (if its = [] then ([], Map.empty)
      else
        (let items_map = foldl (\<lambda>m it. m(item_id it \<mapsto> it)) Map.empty its;
             outfits_item_ids = build_30_outfits cosine_sim its
         in (map (\<lambda>(d, item_ids). \<lparr>day = d, items = item_ids\<rparr>)
               (zip [1..<Suc (length outfits_item_ids)] outfits_item_ids),
             items_map)))"

definition get_item_count :: "item list \<Rightarrow> nat" where
  "get_item_count its = length its"

section \<open>The capsule route (app.py)\<close>

text \<open>
  \<^verbatim>\<open>render_template\<close> is outside the repository; the route's result is the context it
  passes to the template. \<^verbatim>\<open>date(year, month, day_num)\<close> raises \<^verbatim>\<open>ValueError\<close> for a day
  that December does not have; 1 December 2025 is a Monday, which gives the weekday names.
  The message is the source's literal; its last three characters are outside ASCII and are
  written as their UTF-8 bytes.
\<close>

datatype py_error = ValueError

record calendar_day =
  day_number :: nat
  weekday :: string
  quote :: string
  outfit :: capsule_day

record page =
  page_days :: "calendar_day list"
  page_items :: "string \<rightharpoonup> item"
  page_month_name :: string
  page_year :: nat
  page_message :: "string option"

definition cute_quotes :: "string list" where
  "cute_quotes =
     [''Romanticize your everyday.'',
      ''Dress like you already made it.'',
      ''Soft outfit, sharp mind.'',
      ''You are the main character.'',
      ''One outfit at a time.'',
      ''Effortless, not careless.'',
      ''Cute clothes, serious goals.'']"

definition weekday_name :: "nat \<Rightarrow> string" where
  "weekday_name day_num =
     [''Monday'', ''Tuesday'', ''Wednesday'', ''Thursday'', ''Friday'', ''Saturday'', ''Sunday'']
       ! ((day_num + 6) mod 7)"

fun calendar_days :: "nat \<Rightarrow> capsule_day list \<Rightarrow> py_error + calendar_day list" where
  "calendar_days idx [] = Inr []"
| "calendar_days idx (x # outfits) =
     (let day_num = idx + 1
      in if day_num < 1 \<or> 31 < day_num then Inl ValueError
         else case calendar_days (idx + 1) outfits of
                Inl e \<Rightarrow> Inl e
              | Inr ds \<Rightarrow>
                  Inr (\<lparr>day_number = day_num, weekday = weekday_name day_num,
                        quote = cute_quotes ! (idx mod length cute_quotes), outfit = x\<rparr> # ds))"

definition insufficient_msg :: string where
  "insufficient_msg =
     ''Please upload at least 10 wardrobe pieces (tops, bottoms, jackets) to generate a full 30-day capsule ''
       @ [CHR 0xC3, CHR 0xA2, CHR 0xC5, CHR 0x93, CHR 0xC2, CHR 0xA8]"

definition capsule :: "cosine \<Rightarrow> item list \<Rightarrow> py_error + page" where
  "capsule cosine_sim its =
     (if get_item_count its < 2
      then Inr \<lparr>page_days = [], page_items = Map.empty, page_month_name = ''December'',
                page_year = 2025, page_message = Some insufficient_msg\<rparr>
      else
        (let (outfits, items_map) = generate_capsule cosine_sim its
         in case calendar_days 0 outfits of
              Inl e \<Rightarrow> Inl e
            | Inr ds \<Rightarrow>
                Inr \<lparr>page_days = ds, page_items = items_map, page_month_name = ''December'',
                     page_year = 2025, page_message = None\<rparr>))"

section \<open>Example stores\<close>

text \<open>
  Small stores on which the theorems below are evaluated. The tensor library computes in
  single precision; \<open>near_09\<close> is the single-precision number nearest to 0.9, which is
  0.8999999761581421, and the constant function \<open>cosine_near_09\<close> stands for a cosine
  similarity of 0.9 between any two items.
\<close>

definition near_09 :: real where
  "near_09 = 15099494 / 16777216"

definition cosine_near_09 :: cosine where
  "cosine_near_09 e1 e2 = near_09"


definition example_item :: "string \<Rightarrow> string \<Rightarrow> string \<Rightarrow> item" where
  "example_item i c g =
     \<lparr>item_id = i, image_path = ''uploads/'' @ i, filename = i, category = c,
      color_group = g, embedding = [1]\<rparr>"

definition pair_store :: "item list" where
  "pair_store = [example_item ''item1'' ''top'' ''warm'', example_item ''item2'' ''bottom'' ''neutral'']"

definition outfit_store :: "item list" where
  "outfit_store = [example_item ''item1'' ''top'' ''warm'', example_item ''item2'' ''bottom'' ''neutral'',
     example_item ''item3'' ''jacket'' ''cool'']"

definition loose_store :: "item list" where
  "loose_store = [example_item ''item1'' ''hat'' ''warm'', example_item ''item2'' ''bottom'' ''neutral'',
     example_item ''item3'' ''jacket'' ''cool'']"

definition solo_store :: "item list" where
  "solo_store = [example_item ''item1'' ''top'' ''warm'']"

text \<open>
  Two images, and one behaviour for each library call on which the extraction is
  evaluated: a resize that raises on an image without pixels, as OpenCV's does, a fit that
  answers \<open>k\<close> copies of the first pixel, and a conversion whose saturation is the largest
  channel.
\<close>

definition strict_resize :: "image \<Rightarrow> image option" where
  "strict_resize im = (if concat im = [] then None else Some im)"

definition repeat_kmeans :: "nat \<Rightarrow> bgr list \<Rightarrow> (real \<times> real \<times> real) list option" where
  "repeat_kmeans k pixels =
     (case pixels of
        [] \<Rightarrow> None
      | (b, g, r) # _ \<Rightarrow> if k = 0 then None else Some (replicate k (real b, real g, real r)))"

definition max_as_saturation :: "bgr \<Rightarrow> hsv" where
  "max_as_saturation c = (case c of (b, g, r) \<Rightarrow> (0, max b (max g r), 0))"

definition one_pixel :: image where
  "one_pixel = [[(30, 60, 200)]]"

definition plain_image :: image where
  "plain_image = replicate 5 (replicate 5 (30, 60, 200))"

section \<open>Properties of the rounding\<close>

text \<open>
  \<open>binade\<close> is the binary exponent, and \<open>fl\<close> of a number whose magnitude, scaled by
  \<open>2 ^ k\<close>, lies between \<open>2 ^ 52\<close> and \<open>2 ^ 53\<close> is the nearest multiple of
  \<open>1 / 2 ^ k\<close>. The values below are the doubles that Python prints for the same
  expressions.
\<close>

lemma bit_length_bounds: "0 < n \<Longrightarrow> 2 ^ (bit_length n - 1) \<le> n \<and> n < 2 ^ bit_length n"
proof (induction n rule: bit_length.induct)
  case (1 n)
  show ?case
  proof (cases "n div 2 = 0")
    case True
    with 1 have "n = 1" by (simp add: div_eq_0_iff) 
    then show ?thesis by (simp add: bit_length.simps [of "Suc 0"] bit_length.simps [of 0])
  next
    case False
    then have ih: "2 ^ (bit_length (n div 2) - 1) \<le> n div 2" "n div 2 < 2 ^ bit_length (n div 2)"
      using 1 by auto
    have pos: "0 < bit_length (n div 2)"
      using False by (simp add: bit_length.simps [of "n div 2"])
    have eq: "bit_length n = Suc (bit_length (n div 2))"
      using 1 by (simp add: bit_length.simps [of n])
    have "2 * 2 ^ (bit_length (n div 2) - 1) \<le> n" using ih(1) by arith
    moreover have "2 * 2 ^ (bit_length (n div 2) - 1) = (2::nat) ^ bit_length (n div 2)"
      using pos by (cases "bit_length (n div 2)") auto
    moreover have "n < 2 * 2 ^ bit_length (n div 2)" using ih(2) by arith
    ultimately show ?thesis by (simp add: eq)
  qed
qed

lemma bit_length_eqI:
  assumes "2 ^ m \<le> n" "n < 2 ^ Suc m"
  shows "bit_length n = Suc m"
proof -
  have n: "0 < n" using assms(1) by (metis gr0I not_le zero_less_numeral zero_less_power)
  from bit_length_bounds [OF n]
  have b: "2 ^ (bit_length n - 1) \<le> n" "n < 2 ^ bit_length n" by auto
  have "(2::nat) ^ m < 2 ^ bit_length n" using assms(1) b(2) by (rule le_less_trans)
  then have 1: "m < bit_length n" by (simp only: power_strict_increasing_iff [of 2] one_less_numeral_iff semiring_norm)
  have "(2::nat) ^ (bit_length n - 1) < 2 ^ Suc m" using b(1) assms(2) by (rule le_less_trans)
  then have "bit_length n - 1 < Suc m" by (simp only: power_strict_increasing_iff [of 2] one_less_numeral_iff semiring_norm)
  with 1 show ?thesis by simp
qed

lemma binade_eqI:
  assumes "2 powi e \<le> a" "a < 2 powi (e + 1)"
  shows "binade a = e"
proof (cases "1 \<le> a")
  case True
  have "0 \<le> e"
  proof (rule ccontr)
    assume "\<not> 0 \<le> e"
    then have "e + 1 \<le> 0" by simp
    then have "(2::real) powi (e + 1) \<le> 2 powi 0" by (intro power_int_increasing) auto
    with assms(2) True show False by simp
  qed
  then obtain m where m: "e = int m" using nonneg_int_cases by blast
  have le: "(2::real) ^ m \<le> a" and lt: "a < 2 ^ Suc m"
    using assms by (simp_all add: m power_int_add)
  have fl0: "0 \<le> \<lfloor>a\<rfloor>" using True by simp
  have "(2::int) ^ m \<le> \<lfloor>a\<rfloor>"
    using le by (simp add: le_floor_iff)
  then have "int (2 ^ m) \<le> \<lfloor>a\<rfloor>" by simp
  then have 1: "2 ^ m \<le> nat \<lfloor>a\<rfloor>"
    using fl0 by linarith
  have "\<lfloor>a\<rfloor> < (2::int) ^ Suc m"
    using lt by (simp add: floor_less_iff)
  then have "\<lfloor>a\<rfloor> < int (2 ^ Suc m)" by simp
  then have 2: "nat \<lfloor>a\<rfloor> < 2 ^ Suc m"
    using fl0 by linarith
  show ?thesis
    using True bit_length_eqI [OF 1 2] by (simp add: binade_def m)
next
  case False
  have "(0::real) < 2 powi e" by simp
  then have a: "0 < a" using assms(1) by linarith
  have "e < 0"
  proof (rule ccontr)
    assume "\<not> e < 0"
    then have "(2::real) powi 0 \<le> 2 powi e" by (intro power_int_increasing) auto
    with assms(1) False show False by simp
  qed
  then have "0 \<le> - e - 1" by simp
  then obtain j where "- e - 1 = int j" using nonneg_int_cases by blast
  then have j: "e = - int (Suc j)" by simp
  have le: "1 / 2 ^ Suc j \<le> a"
    using assms(1) unfolding j by (simp only: power_int_minus_divide power_int_of_nat)
  have "e + 1 = - int j" using j by simp
  then have lt: "a < 1 / 2 ^ j"
    using assms(2) by (simp only: power_int_minus_divide power_int_of_nat)
  have y1: "1 / a \<le> 2 ^ Suc j"
    using le a by (simp add: field_simps)
  have y2: "2 ^ j < 1 / a"
    using lt a by (simp add: field_simps)
  have c1: "\<lceil>1 / a\<rceil> \<le> 2 ^ Suc j"
    using y1 by (simp add: ceiling_le_iff)
  have c2: "2 ^ j < \<lceil>1 / a\<rceil>"
    using y2 by (simp add: less_ceiling_iff)
  have "int (2 ^ j) \<le> \<lceil>1 / a\<rceil> - 1" using c2 by simp
  then have 1: "2 ^ j \<le> nat (\<lceil>1 / a\<rceil> - 1)"
    by linarith
  have "\<lceil>1 / a\<rceil> - 1 < int (2 ^ Suc j)" using c1 by simp
  moreover have "0 \<le> \<lceil>1 / a\<rceil> - 1"
  proof -
    have "(0::int) < 2 ^ j" by simp
    with c2 show ?thesis by linarith
  qed
  ultimately have 2: "nat (\<lceil>1 / a\<rceil> - 1) < 2 ^ Suc j"
    by (simp only: nat_less_iff)
  show ?thesis
    using False bit_length_eqI [OF 1 2] by (simp add: binade_def j)
qed

lemma fl_eval:
  assumes "2 ^ 52 \<le> \<bar>x\<bar> * 2 ^ k" "\<bar>x\<bar> * 2 ^ k < 2 ^ 53" "k \<le> 1074"
  shows "fl x = of_int (round_half_even (x * 2 ^ k)) / 2 ^ k"
proof -
  have x: "x \<noteq> 0" using assms(1) by auto
  have p: "(2::real) powi (52 - int k) = 2 ^ 52 / 2 ^ k"
    by (simp add: power_int_diff)
  have p1: "(2::real) powi (52 - int k + 1) = 2 ^ 53 / 2 ^ k"
    by (simp add: power_int_diff power_int_add)
  have "binade \<bar>x\<bar> = 52 - int k"
  proof (rule binade_eqI)
    show "2 powi (52 - int k) \<le> \<bar>x\<bar>"
      unfolding p using assms(1) by (simp add: divide_le_eq)
    show "\<bar>x\<bar> < 2 powi (52 - int k + 1)"
      unfolding p1 using assms(2) by (simp add: less_divide_eq)
  qed
  then have q: "max (binade \<bar>x\<bar>) (- 1022) - 52 = - int k"
    using assms(3) by simp
  have "fl x = of_int (round_half_even (x / 2 powi (- int k))) * 2 powi (- int k)"
    using x q by (simp add: fl_def Let_def)
  also have "(2::real) powi (- int k) = 1 / 2 ^ k"
    by (simp only: power_int_minus_divide power_int_of_nat)
  finally show ?thesis by simp
qed




lemma fl_06: "fl (6 / 10) = 5404319552844595 / 9007199254740992"
  using fl_eval [of "6 / 10" 53] by (simp add: round_half_even_def)

lemma fl_0 [simp]: "fl 0 = 0" by (simp add: fl_def)

lemma fl_04: "fl (4 / 10) = 3602879701896397 / 9007199254740992"
  using fl_eval [of "4 / 10" 54] by (simp add: round_half_even_def)



lemma fl_1: "fl 1 = 1"
  using fl_eval [of 1 52] by (simp add: round_half_even_def)

lemma fl_3: "fl 3 = 3"
  using fl_eval [of 3 51] by (simp add: round_half_even_def)

lemma fl_near_09: "fl near_09 = near_09"
  unfolding near_09_def
  using fl_eval [of "15099494 / 16777216" 53] by (simp add: round_half_even_def)


lemma color_part_3: "fmul w_color 3 = 2026619832316723 / 1125899906842624"
  unfolding fmul_def w_color_def fl_06
  using fl_eval [of "5404319552844595 / 9007199254740992 * 3" 52]
  by (simp add: round_half_even_def)

lemma color_part_1: "fmul w_color 1 = 5404319552844595 / 9007199254740992"
  unfolding fmul_def w_color_def fl_06
  using fl_eval [of "5404319552844595 / 9007199254740992 * 1" 53]
  by (simp add: round_half_even_def)

lemma style_part_near_09: "fmul w_style near_09 = 6485183291614823 / 18014398509481984"
  unfolding fmul_def w_style_def fl_04 near_09_def
  using fl_eval [of "3602879701896397 / 9007199254740992 * (15099494 / 16777216)" 54]
  by (simp add: round_half_even_def)


lemma total_near_09: "fadd (fmul w_color 3) (fmul w_style near_09) = 4863887576085299 / 2251799813685248"
  unfolding color_part_3 style_part_near_09 fadd_def
  using fl_eval [of "2026619832316723 / 1125899906842624 + 6485183291614823 / 18014398509481984" 51]
  by (simp add: round_half_even_def)


lemma total_1_near_09: "fadd (fmul w_color 1) (fmul w_style near_09) = 4323455599326003 / 4503599627370496"
  unfolding color_part_1 style_part_near_09 fadd_def
  using fl_eval [of "5404319552844595 / 9007199254740992 + 6485183291614823 / 18014398509481984" 53]
  by (simp add: round_half_even_def)

lemma crop_1: "fmul 1 (fl (6 / 10)) = 5404319552844595 / 9007199254740992"
  unfolding fmul_def fl_06
  using fl_eval [of "1 * (5404319552844595 / 9007199254740992)" 53]
  by (simp add: round_half_even_def)

lemma crop_5: "fmul 5 (fl (6 / 10)) = 3"
  unfolding fmul_def fl_06
  using fl_eval [of "5 * (5404319552844595 / 9007199254740992)" 51]
  by (simp add: round_half_even_def)

text \<open>
  Two places where rounding shows. Over the real numbers a colour score of 3 with a style
  score of 0 ties with a colour score of 2.5 with a style score of 0.75; as doubles the
  first total is 1.7999999999999998 and the second 1.8. And 100 rows at a crop size of
  0.58 leave 57 rows, not 58.
\<close>

lemma tie_broken_by_rounding:
  "fadd (fmul w_color 3) (fmul w_style 0) = 2026619832316723 / 1125899906842624"
  "fadd (fmul w_color (5 / 2)) (fmul w_style (3 / 4)) = 8106479329266893 / 4503599627370496"
  "fadd (fmul w_color 3) (fmul w_style 0) < fadd (fmul w_color (5 / 2)) (fmul w_style (3 / 4))"
proof -
  have z: "fmul w_style 0 = 0"
    by (simp add: fmul_def)
  show 1: "fadd (fmul w_color 3) (fmul w_style 0) = 2026619832316723 / 1125899906842624"
    unfolding z color_part_3 fadd_def
    using fl_eval [of "2026619832316723 / 1125899906842624 + 0" 52]
    by (simp add: round_half_even_def)
  have a: "fmul w_color (5 / 2) = 3 / 2"
    unfolding fmul_def w_color_def fl_06
    using fl_eval [of "5404319552844595 / 9007199254740992 * (5 / 2)" 52]
    by (simp add: round_half_even_def)
  have b: "fmul w_style (3 / 4) = 1351079888211149 / 4503599627370496"
    unfolding fmul_def w_style_def fl_04
    using fl_eval [of "3602879701896397 / 9007199254740992 * (3 / 4)" 54]
    by (simp add: round_half_even_def)
  show 2: "fadd (fmul w_color (5 / 2)) (fmul w_style (3 / 4))
             = 8106479329266893 / 4503599627370496"
    unfolding a b fadd_def
    using fl_eval [of "3 / 2 + 1351079888211149 / 4503599627370496" 52]
    by (simp add: round_half_even_def)
  show "fadd (fmul w_color 3) (fmul w_style 0)
          < fadd (fmul w_color (5 / 2)) (fmul w_style (3 / 4))"
    unfolding 1 2 by simp
qed

lemma crop_rows_at_058: "\<lfloor>fmul 100 (fl (58 / 100))\<rfloor> = 57"
proof -
  have a: "fl (58 / 100) = 5224175567749775 / 9007199254740992"
    using fl_eval [of "58 / 100" 53] by (simp add: round_half_even_def)
  have b: "fmul 100 (fl (58 / 100)) = 8162774324609023 / 140737488355328"
    unfolding fmul_def a
    using fl_eval [of "100 * (5224175567749775 / 9007199254740992)" 47]
    by (simp add: round_half_even_def)
  show ?thesis unfolding b by simp
qed


section \<open>Properties of the classifier\<close>

lemma categorize_color_branch:
  "categorize_color hsv = branch_result (categorize_branch hsv)"
  by (cases hsv) auto

text \<open>
  Claim C4. \<^verbatim>\<open>categorize_color\<close> computes exactly the ordered first-match rule set of
  section 4.2 of the specification, for all integer inputs (so in particular on the OpenCV
  scales), and the four literal cases of section 8 evaluate to warm, cool, neutral and
  neutral.
\<close>

theorem categorize_color_refines_spec:
  "categorize_color (h, s, v) = classify_spec h s v
   \<and> categorize_color (0, 50, 100) = ''warm''
   \<and> categorize_color (90, 50, 100) = ''cool''
   \<and> categorize_color (50, 10, 100) = ''neutral''
   \<and> categorize_color (0, 255, 5) = ''neutral''"
  by (auto simp: classify_spec_def spec_rules_def)

text \<open>
  Claim C5, as stated, fails: the hue-0 colour with saturation 20 and value 100 lies on
  the OpenCV scales, passes none of the five tests and reaches the trailing
  \<^verbatim>\<open>return "neutral"\<close>.
\<close>

theorem fallback_reached_counterexample:
  "(0::int) \<in> {0..179} \<and> (20::int) \<in> {0..255} \<and> (100::int) \<in> {0..255}
   \<and> categorize_branch (0, 20, 100) = Fallback"
  by simp

text \<open>
  Claim C5, amended. On the OpenCV scales the trailing default is reached exactly by the
  weakly saturated reds at the low end of the hue scale: hue at most 15, saturation from 15
  to 40 and value at least 20. Every other in-scale input is decided by one of the five
  rules.
\<close>

theorem fallback_reached_iff:
  assumes "0 \<le> h" "h \<le> 179" "0 \<le> s" "s \<le> 255" "0 \<le> v" "v \<le> 255"
  shows "categorize_branch (h, s, v) = Fallback \<longleftrightarrow> h \<le> 15 \<and> 15 \<le> s \<and> s \<le> 40 \<and> 20 \<le> v"
  using assms by auto

theorem fallback_reached_iff_witness:
  "(0::int) \<le> 7 \<and> (7::int) \<le> 179 \<and> (0::int) \<le> 30 \<and> (30::int) \<le> 255
   \<and> (0::int) \<le> 200 \<and> (200::int) \<le> 255
   \<and> (categorize_branch (7, 30, 200) = Fallback
        \<longleftrightarrow> (7::int) \<le> 15 \<and> (15::int) \<le> 30 \<and> (30::int) \<le> 40 \<and> (20::int) \<le> 200)"
  using fallback_reached_iff [of 7 30 200] by simp

section \<open>Properties of the colour extraction\<close>

lemma argmax_from_bound: "best_i < i \<Longrightarrow> argmax_from best_i best_v i xs < i + length xs"
proof (induction xs arbitrary: best_i best_v i)
  case Nil
  then show ?case by simp
next
  case (Cons x xs)
  have "argmax_from i x (Suc i) xs < Suc i + length xs"
    by (rule Cons.IH) simp
  moreover have "argmax_from best_i best_v (Suc i) xs < Suc i + length xs"
    by (rule Cons.IH) (use Cons.prems in simp)
  ultimately show ?case by simp
qed

lemma argmax_Some: "argmax xs = Some idx \<Longrightarrow> idx < length xs"
  using argmax_from_bound [of 0 1]
  by (auto simp: argmax_def split: list.splits)

lemma argmax_None: "argmax xs = None \<longleftrightarrow> xs = []"
  by (auto simp: argmax_def split: list.splits)

lemma default_crop_size: "0 < fl (6 / 10)" "fl (6 / 10) < 1"
  unfolding fl_06 by simp_all

lemma one_pixel_crop_at:
  "0 < c \<Longrightarrow> c < 1 \<Longrightarrow> \<lfloor>fmul 1 c\<rfloor> = 0 \<Longrightarrow> center_crop one_pixel c = []"
  by (simp add: center_crop_def one_pixel_def)

lemma plain_image_crop_at:
  "0 < c \<Longrightarrow> c < 1 \<Longrightarrow> \<lfloor>fmul 5 c\<rfloor> = 3 \<Longrightarrow>
   center_crop plain_image c = replicate 3 (replicate 3 (30, 60, 200))"
  by (simp add: center_crop_def plain_image_def numeral_eq_Suc)

lemma one_pixel_crop: "center_crop one_pixel (fl (6 / 10)) = []"
proof (rule one_pixel_crop_at [OF default_crop_size])
  show "\<lfloor>fmul 1 (fl (6 / 10))\<rfloor> = 0"
    unfolding crop_1 by simp
qed

lemma plain_image_crop:
  "center_crop plain_image (fl (6 / 10)) = replicate 3 (replicate 3 (30, 60, 200))"
proof (rule plain_image_crop_at [OF default_crop_size])
  show "\<lfloor>fmul 5 (fl (6 / 10))\<rfloor> = 3"
    unfolding crop_5 by simp
qed

text \<open>
  Claim C8, as stated, fails. A picture of one pixel has no pixel left after the default
  centre crop of 0.6; the empty crop goes to the resize call, and with a resize that raises
  on it the function fails with the library's error, not with \<open>ColorExtractionError\<close>.
\<close>

theorem empty_crop_counterexample:
  "concat (center_crop one_pixel (fl (6 / 10))) = []
   \<and> get_dominant_color_bgr strict_resize repeat_kmeans max_as_saturation one_pixel 4 (fl (6 / 10))
       = Inl Cv2Error
   \<and> get_dominant_color_bgr strict_resize repeat_kmeans max_as_saturation one_pixel 4 (fl (6 / 10))
       \<noteq> Inl ColorExtractionError"
proof -
  have "get_dominant_color_bgr strict_resize repeat_kmeans max_as_saturation one_pixel 4 (fl (6 / 10))
          = Inl Cv2Error"
    unfolding get_dominant_color_bgr_def one_pixel_crop by (simp add: strict_resize_def)
  then show ?thesis
    using one_pixel_crop by simp
qed

text \<open>
  Claim C8, amended. Colour extraction never fails with a \<open>ColorExtractionError\<close>, whatever
  the library calls do, and it has no check of its own for an empty crop or for a cluster
  count above the number of distinct colours: it fails exactly where a library call fails,
  with that library's error. If the resize of the crop raises, the result is the OpenCV
  error; if the fit raises, the scikit-learn error; and if both return, with at least one
  centre, the result is one of the fitted centres, cast to 8 bits. No default colour is put
  in its place.
\<close>

theorem extraction_failures:
  "get_dominant_color_bgr resize kmeans_fit bgr2hsv image_bgr k crop_size
     \<noteq> Inl ColorExtractionError
   \<and> (resize (center_crop image_bgr crop_size) = None \<longrightarrow>
        get_dominant_color_bgr resize kmeans_fit bgr2hsv image_bgr k crop_size = Inl Cv2Error)
   \<and> (resize (center_crop image_bgr crop_size) = Some img_small
        \<and> kmeans_fit k (concat img_small) = None \<longrightarrow>
        get_dominant_color_bgr resize kmeans_fit bgr2hsv image_bgr k crop_size = Inl SklearnError)
   \<and> (resize (center_crop image_bgr crop_size) = Some img_small
        \<and> kmeans_fit k (concat img_small) = Some cluster_centers \<and> cluster_centers \<noteq> [] \<longrightarrow>
        (\<exists>c \<in> set cluster_centers.
           get_dominant_color_bgr resize kmeans_fit bgr2hsv image_bgr k crop_size
             = Inr (as_uint8 c)))"
proof (intro conjI impI)
  show "get_dominant_color_bgr resize kmeans_fit bgr2hsv image_bgr k crop_size
          \<noteq> Inl ColorExtractionError"
    by (simp add: get_dominant_color_bgr_def Let_def split: option.splits)
next
  assume "resize (center_crop image_bgr crop_size) = None"
  then show "get_dominant_color_bgr resize kmeans_fit bgr2hsv image_bgr k crop_size = Inl Cv2Error"
    by (simp add: get_dominant_color_bgr_def)
next
  assume "resize (center_crop image_bgr crop_size) = Some img_small
        \<and> kmeans_fit k (concat img_small) = None"
  then show "get_dominant_color_bgr resize kmeans_fit bgr2hsv image_bgr k crop_size
          = Inl SklearnError"
    by (simp add: get_dominant_color_bgr_def)
next
  assume a: "resize (center_crop image_bgr crop_size) = Some img_small
        \<and> kmeans_fit k (concat img_small) = Some cluster_centers \<and> cluster_centers \<noteq> []"
  let ?sats = "map (\<lambda>(h, s, v). s) (map bgr2hsv (map as_uint8 cluster_centers))"
  from a have "?sats \<noteq> []" by simp
  then obtain idx where idx: "argmax ?sats = Some idx"
    using argmax_None [of ?sats] by (cases "argmax ?sats") auto
  then have lt: "idx < length cluster_centers"
    using argmax_Some [OF idx] by simp
  have "get_dominant_color_bgr resize kmeans_fit bgr2hsv image_bgr k crop_size
          = Inr (as_uint8 (cluster_centers ! idx))"
    using a idx lt by (simp add: get_dominant_color_bgr_def Let_def comp_assoc)
  then show "\<exists>c \<in> set cluster_centers.
           get_dominant_color_bgr resize kmeans_fit bgr2hsv image_bgr k crop_size
             = Inr (as_uint8 c)"
    using lt by (metis nth_mem)
qed

theorem extraction_failures_witness:
  "center_crop one_pixel (fl (6 / 10)) = []
   \<and> get_dominant_color_bgr strict_resize repeat_kmeans max_as_saturation one_pixel 4 (fl (6 / 10))
       = Inl Cv2Error
   \<and> get_dominant_color_bgr strict_resize repeat_kmeans max_as_saturation plain_image 0 (fl (6 / 10))
       = Inl SklearnError
   \<and> card (set (concat (center_crop plain_image (fl (6 / 10))))) < 4
   \<and> get_dominant_color_bgr strict_resize repeat_kmeans max_as_saturation plain_image 4 (fl (6 / 10))
       = Inr (30, 60, 200)"
proof -
  let ?crop = "replicate 3 (replicate 3 (30, 60, 200)) :: image"
  let ?centers = "replicate 4 (30, 60, 200) :: (real \<times> real \<times> real) list"
  have r1: "strict_resize (center_crop one_pixel (fl (6 / 10))) = None"
    unfolding one_pixel_crop by (simp add: strict_resize_def)
  have r2: "strict_resize (center_crop plain_image (fl (6 / 10))) = Some ?crop"
    unfolding plain_image_crop by (simp add: strict_resize_def numeral_eq_Suc)
  have k0: "repeat_kmeans 0 (concat ?crop) = None"
    by (simp add: repeat_kmeans_def numeral_eq_Suc)
  have k4: "repeat_kmeans 4 (concat ?crop) = Some ?centers"
    by (simp add: repeat_kmeans_def numeral_eq_Suc)
  have c: "card (set (concat ?crop)) < 4"
    by (simp add: numeral_eq_Suc)
  have u: "as_uint8 ` set ?centers = {(30, 60, 200)}"
    by (simp add: as_uint8_def)
  from extraction_failures [of strict_resize repeat_kmeans max_as_saturation one_pixel 4 "fl (6 / 10)"] r1
  have e1: "get_dominant_color_bgr strict_resize repeat_kmeans max_as_saturation one_pixel 4 (fl (6 / 10))
              = Inl Cv2Error"
    by blast
  from extraction_failures [of strict_resize repeat_kmeans max_as_saturation plain_image 0 "fl (6 / 10)"
      ?crop] r2 k0
  have e2: "get_dominant_color_bgr strict_resize repeat_kmeans max_as_saturation plain_image 0 (fl (6 / 10))
              = Inl SklearnError"
    by blast
  from extraction_failures [of strict_resize repeat_kmeans max_as_saturation plain_image 4 "fl (6 / 10)"
      ?crop ?centers] r2 k4
  have "\<exists>c \<in> set ?centers.
          get_dominant_color_bgr strict_resize repeat_kmeans max_as_saturation plain_image 4 (fl (6 / 10))
            = Inr (as_uint8 c)"
    by simp
  then have e3: "get_dominant_color_bgr strict_resize repeat_kmeans max_as_saturation plain_image 4 (fl (6 / 10))
              = Inr (30, 60, 200)"
    using u by auto
  show ?thesis
    using e1 e2 e3 c one_pixel_crop plain_image_crop by simp
qed

section \<open>Properties of the pairwise colour score\<close>

text \<open>
  Claim C6. The pairwise colour score is 3.0 whenever either class is neutral, 2.5 for two
  equal non-neutral classes, 1.0 for two distinct non-neutral classes, and it is symmetric.
  It holds for all strings, so in particular for the three class names.
\<close>

theorem pair_color_score_table:
  "(g1 = ''neutral'' \<or> g2 = ''neutral'' \<longrightarrow> pair_color_score g1 g2 = 3)
   \<and> (g \<noteq> ''neutral'' \<longrightarrow> pair_color_score g g = 5 / 2)
   \<and> (g1 \<noteq> ''neutral'' \<and> g2 \<noteq> ''neutral'' \<and> g1 \<noteq> g2 \<longrightarrow> pair_color_score g1 g2 = 1)
   \<and> pair_color_score a b = pair_color_score b a"
  by (auto simp: pair_color_score_def)

theorem pair_color_score_table_witness:
  "(''neutral'' = ''neutral'' \<or> ''warm'' = ''neutral'')
   \<and> pair_color_score ''neutral'' ''warm'' = 3
   \<and> ''warm'' \<noteq> ''neutral'' \<and> pair_color_score ''warm'' ''warm'' = 5 / 2
   \<and> ''cool'' \<noteq> ''neutral'' \<and> ''warm'' \<noteq> ''cool''
   \<and> pair_color_score ''warm'' ''cool'' = 1
   \<and> pair_color_score ''warm'' ''cool'' = pair_color_score ''cool'' ''warm''"
  using pair_color_score_table [of "''neutral''" "''warm''" "''warm''" "''warm''" "''cool''"]
    pair_color_score_table [of "''warm''" "''cool''" "''warm''" "''warm''" "''cool''"]
  by simp

section \<open>Counting the combos\<close>

lemma sum_list_descending: "sum_list (map (\<lambda>i. n - Suc i) [0..<n]) = n * (n - 1) div 2"
proof -
  have "sum_list (map (\<lambda>i. n - Suc i) [0..<n]) = (\<Sum>i<n. n - Suc i)"
    by (simp add: sum_list_sum_nth atLeast0LessThan)
  also have "\<dots> = (\<Sum>i<n. i)"
    by (rule sum.nat_diff_reindex)
  also have "\<dots> = n * (n - 1) div 2"
    using Sum_Ico_nat [of 0 n] by (simp add: atLeast0LessThan)
  finally show ?thesis .
qed

lemma length_index_pairs: "length (index_pairs n) = n * (n - 1) div 2"
  using sum_list_descending [of n]
  by (simp add: index_pairs_def length_concat comp_def)

lemma length_concat_const:
  "(\<And>x. x \<in> set xs \<Longrightarrow> length (f x) = c) \<Longrightarrow> length (concat (map f xs)) = length xs * c"
  by (induction xs) auto

lemma pad_loop_length: "best \<noteq> [] \<Longrightarrow> 31 \<le> length (pad_loop best)"
proof (induction best rule: pad_loop.induct)
  case (1 best)
  show ?case
  proof (cases "length best < 31")
    case True
    with 1 show ?thesis by (subst pad_loop.simps) simp
  next
    case False
    then show ?thesis by (subst pad_loop.simps) simp
  qed
qed

lemma pad_loop_nth:
  assumes "L \<noteq> []"
    and "\<And>i. i < length L \<Longrightarrow> L ! i = b ! (i mod length b)"
    and "length L < 31 \<Longrightarrow> length b dvd length L"
    and "i < length (pad_loop L)"
  shows "pad_loop L ! i = b ! (i mod length b)"
  using assms
proof (induction L arbitrary: i rule: pad_loop.induct)
  case (1 best)
  show ?case
  proof (cases "length best < 31")
    case False
    with 1 show ?thesis by (subst pad_loop.simps) (simp add: pad_loop.simps [of best])
  next
    case True
    let ?ext = "best @ take (31 - length best) best"
    have step: "pad_loop best = pad_loop ?ext"
      using True "1.prems"(1) by (subst pad_loop.simps) simp
    have dv: "length b dvd length best" using True "1.prems"(3) by simp
    have nth: "?ext ! j = b ! (j mod length b)" if "j < length ?ext" for j
    proof (cases "j < length best")
      case True
      then show ?thesis using "1.prems"(2) by (simp add: nth_append)
    next
      case False
      then have "j - length best < length best" "j - length best < 31 - length best"
        using that by (auto simp: min_def split: if_splits)
      then have "?ext ! j = b ! ((j - length best) mod length b)"
        using False "1.prems"(2) by (simp add: nth_append)
      also have "(j - length best) mod length b = j mod length b"
      proof -
        from dv obtain k where k: "length best = length b * k" ..
        have "j = (j - length best) + length b * k" using False k by simp
        then have "j mod length b = ((j - length best) + length b * k) mod length b" by simp
        then show ?thesis by simp
      qed
      finally show ?thesis .
    qed
    have dv': "length b dvd length ?ext" if "length ?ext < 31"
    proof -
      from that have "length ?ext = length best + length best"
        by (auto simp: min_def split: if_splits)
      then show ?thesis using dv by simp
    qed
    have "pad_loop ?ext ! i = b ! (i mod length b)"
    proof (rule "1.IH")
      show "length best < 31 \<and> best \<noteq> []" using True "1.prems"(1) by simp
      show "?ext \<noteq> []" using "1.prems"(1) by simp
      show "\<And>i. i < length ?ext \<Longrightarrow> ?ext ! i = b ! (i mod length b)" by (rule nth)
      show "length ?ext < 31 \<Longrightarrow> length b dvd length ?ext" by (rule dv')
      show "i < length (pad_loop ?ext)" using "1.prems"(4) step by simp
    qed
    then show ?thesis using step by simp
  qed
qed

lemma build_combos_structured:
  assumes "filter (\<lambda>it. category it = ''top'') its \<noteq> []"
    and "filter (\<lambda>it. category it = ''bottom'') its \<noteq> []"
  shows "length (build_combos its) =
     length (filter (\<lambda>it. category it = ''top'') its)
     * length (filter (\<lambda>it. category it = ''bottom'') its)
     * (1 + length (filter (\<lambda>it. category it = ''jacket'') its))"
  using assms
  by (simp add: algebra_simps build_combos_def Let_def length_concat_const [where c = "1 + length (filter (\<lambda>it. category it = ''jacket'') its)"]
       length_concat_const [where c = "length (filter (\<lambda>it. category it = ''bottom'') its) * (1 + length (filter (\<lambda>it. category it = ''jacket'') its))"])

lemma build_combos_fallback:
  assumes "filter (\<lambda>it. category it = ''top'') its = [] \<or> filter (\<lambda>it. category it = ''bottom'') its = []"
  shows "length (build_combos its) = length its * (length its - 1) div 2"
  using assms by (auto simp: build_combos_def Let_def length_index_pairs)

lemma set_index_pairs: "set (index_pairs n) = {(i, j). i < j \<and> j < n}"
  by (fastforce simp: index_pairs_def image_iff)

lemma distinct_concat_map:
  assumes "distinct xs"
    and "\<And>x. x \<in> set xs \<Longrightarrow> distinct (f x)"
    and "\<And>x y. x \<in> set xs \<Longrightarrow> y \<in> set xs \<Longrightarrow> x \<noteq> y \<Longrightarrow> set (f x) \<inter> set (f y) = {}"
  shows "distinct (concat (map f xs))"
  using assms
proof (induction xs)
  case Nil
  then show ?case by simp
next
  case (Cons x xs)
  have "distinct (concat (map f xs))"
    using Cons.prems by (intro Cons.IH) auto
  moreover have "distinct (f x)" using Cons.prems(2) by simp
  moreover have "set (f x) \<inter> set (concat (map f xs)) = {}"
  proof -
    have "set (f x) \<inter> set (f y) = {}" if "y \<in> set xs" for y
      using Cons.prems(1) Cons.prems(3) [of x y] that by auto
    then show ?thesis by auto
  qed
  ultimately show ?case by simp
qed

lemma distinct_index_pairs: "distinct (index_pairs n)"
  unfolding index_pairs_def
  by (rule distinct_concat_map) (auto simp: distinct_map inj_on_def)

lemma concat_map_product:
  "concat (map (\<lambda>t. concat (map (f t) bs)) ts) = concat (map (\<lambda>(t, b). f t b) (List.product ts bs))"
  by (induction ts) (simp_all add: comp_def)

lemma build_combos_structured_list:
  assumes "filter (\<lambda>it. category it = ''top'') its \<noteq> []"
    and "filter (\<lambda>it. category it = ''bottom'') its \<noteq> []"
  shows "build_combos its =
     concat (map (\<lambda>(t, b). make_combo [t, b]
                   # map (\<lambda>j. make_combo [t, b, j]) (filter (\<lambda>it. category it = ''jacket'') its))
       (List.product (filter (\<lambda>it. category it = ''top'') its)
          (filter (\<lambda>it. category it = ''bottom'') its)))"
  using assms
  by (simp add: build_combos_def Let_def concat_map_product)

lemma build_combos_structured_set:
  assumes "filter (\<lambda>it. category it = ''top'') its \<noteq> []"
    and "filter (\<lambda>it. category it = ''bottom'') its \<noteq> []"
  shows "set (build_combos its) =
     {make_combo [t, b] |t b.
        t \<in> set (filter (\<lambda>it. category it = ''top'') its)
        \<and> b \<in> set (filter (\<lambda>it. category it = ''bottom'') its)}
     \<union> {make_combo [t, b, j] |t b j.
        t \<in> set (filter (\<lambda>it. category it = ''top'') its)
        \<and> b \<in> set (filter (\<lambda>it. category it = ''bottom'') its)
        \<and> j \<in> set (filter (\<lambda>it. category it = ''jacket'') its)}"
  unfolding build_combos_structured_list [OF assms]
  by (auto simp del: set_filter)

lemma build_combos_fallback_list:
  assumes "filter (\<lambda>it. category it = ''top'') its = [] \<or> filter (\<lambda>it. category it = ''bottom'') its = []"
  shows "build_combos its = map (\<lambda>(i, j). make_combo [its ! i, its ! j]) (index_pairs (length its))"
  using assms by (auto simp: build_combos_def Let_def)

lemma index_pairs_small:
  "index_pairs 0 = []" "index_pairs (Suc 0) = []" "index_pairs (Suc (Suc 0)) = [(0, Suc 0)]"
  by (simp_all add: index_pairs_def)

lemma combos_exist: "2 \<le> length its \<Longrightarrow> build_combos its \<noteq> []"
proof -
  assume n: "2 \<le> length its"
  show ?thesis
  proof (cases "filter (\<lambda>it. category it = ''top'') its \<noteq> [] \<and> filter (\<lambda>it. category it = ''bottom'') its \<noteq> []")
    case True
    then have "0 < length (build_combos its)"
      by (simp add: build_combos_structured)
    then show ?thesis by auto
  next
    case False
    then have "length (build_combos its) = length its * (length its - 1) div 2"
      by (intro build_combos_fallback) auto
    moreover have "1 \<le> length its * (length its - 1) div 2"
    proof -
      have "2 * 1 \<le> length its * (length its - 1)"
        using n by (intro mult_le_mono) auto
      then show ?thesis by simp
    qed
    ultimately show ?thesis by auto
  qed
qed

lemma length_generate_capsule:
  "its \<noteq> [] \<Longrightarrow> length (fst (generate_capsule cs its)) = length (build_30_outfits cs its)"
  by (simp add: generate_capsule_def Let_def del: upt_Suc)

lemma nth_generate_capsule:
  "its \<noteq> [] \<Longrightarrow> i < length (build_30_outfits cs its) \<Longrightarrow>
   fst (generate_capsule cs its) ! i = \<lparr>day = i + 1, items = build_30_outfits cs its ! i\<rparr>"
  by (simp add: generate_capsule_def Let_def del: upt_Suc)

lemma length_top_ranked: "length (top_ranked cs combos) = min 31 (length combos)"
  by (simp add: top_ranked_def Let_def score_combos_def)

lemma build_30_outfits_padded:
  assumes "build_combos its \<noteq> []"
  shows "length (build_30_outfits cs its) = 31"
proof -
  have "top_ranked cs (build_combos its) \<noteq> []"
    using assms length_top_ranked [of cs "build_combos its"] by (cases "build_combos its") auto
  then have "31 \<le> length (pad_loop (top_ranked cs (build_combos its)))"
    by (rule pad_loop_length)
  then show ?thesis using assms by (simp add: build_30_outfits_def Let_def)
qed

subsection \<open>The example stores, evaluated\<close>

lemma pair_store_combos:
  "build_combos pair_store = [make_combo pair_store]"
  by (simp add: build_combos_def pair_store_def example_item_def)

lemma outfit_store_counts:
  "length (filter (\<lambda>it. category it = ''top'') outfit_store) = 1"
  "length (filter (\<lambda>it. category it = ''bottom'') outfit_store) = 1"
  "length (filter (\<lambda>it. category it = ''jacket'') outfit_store) = 1"
  "length outfit_store = 3"
  by (simp_all add: outfit_store_def example_item_def)

lemma loose_store_counts:
  "length (filter (\<lambda>it. category it = ''top'') loose_store) = 0"
  "length (filter (\<lambda>it. category it = ''bottom'') loose_store) = 1"
  "length (filter (\<lambda>it. category it = ''jacket'') loose_store) = 1"
  "length loose_store = 3"
  by (simp_all add: loose_store_def example_item_def)

lemma solo_store_counts:
  "length (filter (\<lambda>it. category it = ''top'') solo_store) = 1"
  "length (filter (\<lambda>it. category it = ''bottom'') solo_store) = 0"
  "length (filter (\<lambda>it. category it = ''jacket'') solo_store) = 0"
  "length solo_store = 1"
  by (simp_all add: solo_store_def example_item_def)

lemma index_pairs_3:
  "index_pairs (Suc (Suc (Suc 0))) = [(0, Suc 0), (0, Suc (Suc 0)), (Suc 0, Suc (Suc 0))]"
  by (simp add: index_pairs_def)

lemma loose_store_combos:
  "build_combos loose_store =
     [make_combo [example_item ''item1'' ''hat'' ''warm'', example_item ''item2'' ''bottom'' ''neutral''],
      make_combo [example_item ''item1'' ''hat'' ''warm'', example_item ''item3'' ''jacket'' ''cool''],
      make_combo [example_item ''item2'' ''bottom'' ''neutral'', example_item ''item3'' ''jacket'' ''cool'']]"
  by (simp add: build_combos_def loose_store_def index_pairs_3) (simp add: example_item_def)

lemma color_score_pair:
  "outfit_color_score [g1, g2] = fl (pair_color_score g1 g2)"
  by (simp add: outfit_color_score_def index_pairs_small fadd_def)

lemma style_score_pair:
  "outfit_style_score cosine_sim [e1, e2] = fl (fl (cosine_sim e1 e2))"
  by (simp add: outfit_style_score_def index_pairs_small fadd_def fdiv_def)

lemma loose_store_scores:
  "score_combos cosine_near_09 (build_combos loose_store) =
     [(4863887576085299 / 2251799813685248, [''item1'', ''item2'']),
      (4323455599326003 / 4503599627370496, [''item1'', ''item3'']),
      (4863887576085299 / 2251799813685248, [''item2'', ''item3''])]"
  by (simp add: loose_store_combos score_combos_def make_combo_def example_item_def
      color_score_pair style_score_pair pair_color_score_def fl_3 fl_1 fl_near_09
      cosine_near_09_def total_near_09 total_1_near_09)

lemma loose_store_ranked:
  "top_ranked cosine_near_09 (build_combos loose_store)
     = [[''item1'', ''item2''], [''item2'', ''item3''], [''item1'', ''item3'']]"
  by (simp add: top_ranked_def loose_store_scores)

section \<open>Properties of the combinator and the selector\<close>

text \<open>
  Claim C3. For a snapshot with \<open>T\<close> tops, \<open>B\<close> bottoms, \<open>J\<close> jackets and \<open>N\<close> items
  in all: when there is a top and a bottom, the combinator builds exactly
  \<open>T * B * (1 + J)\<close> combos, namely, for every top and bottom in store order, the pair of
  them followed by that pair with each jacket. Otherwise, when \<open>N\<close> is at least 2, it builds
  exactly \<open>N * (N - 1) / 2\<close> combos, one for each pair of positions \<open>i < j\<close> of the store
  and each the pair of the two items there. Otherwise it builds no combo and
  \<^verbatim>\<open>_build_30_outfits\<close> returns the \<open>N\<close> single-item outfits, one per item.
\<close>

theorem combos_cardinality:
  fixes its :: "item list"
  defines "tops \<equiv> filter (\<lambda>it. category it = ''top'') its"
    and "bottoms \<equiv> filter (\<lambda>it. category it = ''bottom'') its"
    and "jackets \<equiv> filter (\<lambda>it. category it = ''jacket'') its"
  assumes "T = length tops" and "B = length bottoms" and "J = length jackets"
    and "N = length its"
  shows "(0 < T \<and> 0 < B \<longrightarrow>
            length (build_combos its) = T * B * (1 + J)
            \<and> build_combos its =
                concat (map (\<lambda>(t, b). make_combo [t, b] # map (\<lambda>j. make_combo [t, b, j]) jackets)
                  (List.product tops bottoms))
            \<and> set (build_combos its) =
                {make_combo [t, b] |t b. t \<in> set tops \<and> b \<in> set bottoms}
                \<union> {make_combo [t, b, j] |t b j. t \<in> set tops \<and> b \<in> set bottoms \<and> j \<in> set jackets})
       \<and> (\<not> (0 < T \<and> 0 < B) \<and> 2 \<le> N \<longrightarrow>
            length (build_combos its) = N * (N - 1) div 2
            \<and> build_combos its = map (\<lambda>(i, j). make_combo [its ! i, its ! j]) (index_pairs N)
            \<and> map ids (build_combos its)
                = map (\<lambda>(i, j). [item_id (its ! i), item_id (its ! j)]) (index_pairs N)
            \<and> distinct (index_pairs N)
            \<and> set (index_pairs N) = {(i, j). i < j \<and> j < N})
       \<and> (\<not> (0 < T \<and> 0 < B) \<and> N < 2 \<longrightarrow>
            build_combos its = []
            \<and> build_30_outfits cs its = map (\<lambda>it. [item_id it]) its
            \<and> length (build_30_outfits cs its) = N)"
proof (intro conjI impI)
  assume a: "0 < T \<and> 0 < B"
  then have ne: "filter (\<lambda>it. category it = ''top'') its \<noteq> []"
    "filter (\<lambda>it. category it = ''bottom'') its \<noteq> []"
    using assms by auto
  show "length (build_combos its) = T * B * (1 + J)"
    using ne assms by (simp add: build_combos_structured)
  show "build_combos its =
          concat (map (\<lambda>(t, b). make_combo [t, b] # map (\<lambda>j. make_combo [t, b, j]) jackets)
            (List.product tops bottoms))"
    unfolding tops_def bottoms_def jackets_def using ne by (rule build_combos_structured_list)
  show "set (build_combos its) =
          {make_combo [t, b] |t b. t \<in> set tops \<and> b \<in> set bottoms}
          \<union> {make_combo [t, b, j] |t b j. t \<in> set tops \<and> b \<in> set bottoms \<and> j \<in> set jackets}"
    unfolding tops_def bottoms_def jackets_def using ne by (rule build_combos_structured_set)
next
  assume a: "\<not> (0 < T \<and> 0 < B) \<and> 2 \<le> N"
  then have e: "filter (\<lambda>it. category it = ''top'') its = []
      \<or> filter (\<lambda>it. category it = ''bottom'') its = []"
    using assms by auto
  show "length (build_combos its) = N * (N - 1) div 2"
    using e assms by (simp add: build_combos_fallback)
  show l: "build_combos its = map (\<lambda>(i, j). make_combo [its ! i, its ! j]) (index_pairs N)"
    using e assms by (simp add: build_combos_fallback_list)
  show "map ids (build_combos its)
          = map (\<lambda>(i, j). [item_id (its ! i), item_id (its ! j)]) (index_pairs N)"
    unfolding l by (simp add: make_combo_def split_def)
  show "distinct (index_pairs N)" by (rule distinct_index_pairs)
  show "set (index_pairs N) = {(i, j). i < j \<and> j < N}" by (rule set_index_pairs)
next
  assume a: "\<not> (0 < T \<and> 0 < B) \<and> N < 2"
  then have e: "filter (\<lambda>it. category it = ''top'') its = []
      \<or> filter (\<lambda>it. category it = ''bottom'') its = []"
    using assms by auto
  then have "length (build_combos its) = N * (N - 1) div 2"
    using assms by (simp add: build_combos_fallback)
  moreover have "N * (N - 1) div 2 = 0"
    using a by (cases N) auto
  ultimately show e: "build_combos its = []" by simp
  then show s: "build_30_outfits cs its = map (\<lambda>it. [item_id it]) its"
    using a assms by (simp add: build_30_outfits_def)
  show "length (build_30_outfits cs its) = N"
    using s assms by simp
qed

theorem combos_cardinality_witness:
  "length (build_combos outfit_store) = 2
   \<and> set (build_combos outfit_store)
       = {make_combo [example_item ''item1'' ''top'' ''warm'',
                      example_item ''item2'' ''bottom'' ''neutral''],
          make_combo [example_item ''item1'' ''top'' ''warm'',
                      example_item ''item2'' ''bottom'' ''neutral'',
                      example_item ''item3'' ''jacket'' ''cool'']}
   \<and> length (build_combos loose_store) = 3
   \<and> map ids (build_combos loose_store)
       = [[''item1'', ''item2''], [''item1'', ''item3''], [''item2'', ''item3'']]
   \<and> build_combos solo_store = []
   \<and> build_30_outfits cosine_near_09 solo_store = [[''item1'']]"
proof -
  have f: "filter (\<lambda>it. category it = ''top'') outfit_store
             = [example_item ''item1'' ''top'' ''warm'']"
    "filter (\<lambda>it. category it = ''bottom'') outfit_store
             = [example_item ''item2'' ''bottom'' ''neutral'']"
    "filter (\<lambda>it. category it = ''jacket'') outfit_store
             = [example_item ''item3'' ''jacket'' ''cool'']"
    by (simp_all add: outfit_store_def example_item_def)
  have 1: "length (build_combos outfit_store) = 2
     \<and> set (build_combos outfit_store)
       = {make_combo [example_item ''item1'' ''top'' ''warm'',
                      example_item ''item2'' ''bottom'' ''neutral''],
          make_combo [example_item ''item1'' ''top'' ''warm'',
                      example_item ''item2'' ''bottom'' ''neutral'',
                      example_item ''item3'' ''jacket'' ''cool'']}"
    using combos_cardinality [where its = outfit_store and T = 1 and B = 1 and J = 1 and N = 3
        and cs = cosine_near_09]
    unfolding f by (auto simp: outfit_store_counts)
  have 2: "length (build_combos loose_store) = 3
     \<and> map ids (build_combos loose_store)
         = [[''item1'', ''item2''], [''item1'', ''item3''], [''item2'', ''item3'']]"
    using combos_cardinality [where its = loose_store and T = 0 and B = 1 and J = 1 and N = 3
        and cs = cosine_near_09]
    by (simp add: loose_store_counts numeral_3_eq_3 index_pairs_3)
       (simp add: loose_store_def example_item_def make_combo_def)
  have 3: "build_combos solo_store = []
     \<and> build_30_outfits cosine_near_09 solo_store = [[''item1'']]"
    using combos_cardinality [where its = solo_store and T = 1 and B = 0 and J = 0 and N = 1
        and cs = cosine_near_09]
    by (simp add: solo_store_counts) (simp add: solo_store_def example_item_def)
  from 1 2 3 show ?thesis by blast
qed

text \<open>
  Claim C1. For every store with at least two items (the threshold of the capsule route)
  for which the combinator builds at least one combo, the capsule that
  \<^verbatim>\<open>generate_capsule\<close> returns has exactly 31 days, however few combos there are.
\<close>

theorem capsule_length:
  assumes "2 \<le> get_item_count its" and "build_combos its \<noteq> []"
  shows "length (fst (generate_capsule cs its)) = 31"
proof -
  from assms(1) have "its \<noteq> []" by (auto simp: get_item_count_def)
  then show ?thesis
    using assms(2) by (simp add: length_generate_capsule build_30_outfits_padded)
qed

theorem capsule_length_witness:
  "2 \<le> get_item_count pair_store \<and> build_combos pair_store \<noteq> []
   \<and> length (fst (generate_capsule cosine_near_09 pair_store)) = 31"
  using capsule_length [of pair_store cosine_near_09]
  by (simp add: pair_store_combos get_item_count_def) (simp add: pair_store_def)

text \<open>
  Claim C2. When there are combos, but fewer than 31, the capsule is the cyclic repetition
  of the ranked selection: for every index \<open>i\<close> below 31, day \<open>i + 1\<close> of the capsule carries
  the item ids of entry \<open>i mod n\<close> of the \<open>n\<close> selected combos, and \<open>n\<close> is the number of
  combos.
\<close>

theorem capsule_cyclic:
  assumes "build_combos its \<noteq> []" and "length (build_combos its) < 31" and "i < 31"
  shows "items (fst (generate_capsule cs its) ! i)
           = top_ranked cs (build_combos its) ! (i mod length (top_ranked cs (build_combos its)))
         \<and> day (fst (generate_capsule cs its) ! i) = i + 1
         \<and> length (top_ranked cs (build_combos its)) = length (build_combos its)"
proof -
  let ?b = "top_ranked cs (build_combos its)"
  have len: "length ?b = length (build_combos its)"
    using assms(2) by (simp add: length_top_ranked)
  then have ne: "?b \<noteq> []" using assms(1) by auto
  have its: "its \<noteq> []"
    using assms(1) by (auto simp: build_combos_def index_pairs_small)
  have l31: "length (build_30_outfits cs its) = 31"
    using assms(1) by (rule build_30_outfits_padded)
  have ip: "i < length (pad_loop ?b)"
    using pad_loop_length [OF ne] assms(3) by simp
  have "build_30_outfits cs its ! i = pad_loop ?b ! i"
    using assms(1,3) by (simp add: build_30_outfits_def Let_def)
  also have "\<dots> = ?b ! (i mod length ?b)"
    using ne _ _ ip by (rule pad_loop_nth) simp_all
  finally have "build_30_outfits cs its ! i = ?b ! (i mod length ?b)" .
  then show ?thesis
    using nth_generate_capsule [OF its, of i cs] l31 assms(3) len by simp
qed

theorem capsule_cyclic_witness:
  "build_combos loose_store \<noteq> [] \<and> length (build_combos loose_store) < 31 \<and> (4::nat) < 31
   \<and> items (fst (generate_capsule cosine_near_09 loose_store) ! 4) = [''item2'', ''item3'']
   \<and> day (fst (generate_capsule cosine_near_09 loose_store) ! 4) = 5"
proof -
  have l: "length (build_combos loose_store) = 3"
    by (simp add: loose_store_combos)
  then have ne: "build_combos loose_store \<noteq> []" by auto
  show ?thesis
    using capsule_cyclic [of loose_store 4 cosine_near_09] l ne
    by (simp add: loose_store_ranked)
qed



text \<open>
  Claim C10. For a store of exactly one item, \<^verbatim>\<open>generate_capsule\<close> returns one capsule
  day, day 1 with the id of that item, and the lookup table of that item: the single-item
  outfits are returned before the padding loop, so nothing is padded and nothing fails.
\<close>

theorem single_item_capsule:
  "generate_capsule cs [it] = ([\<lparr>day = 1, items = [item_id it]\<rparr>], [item_id it \<mapsto> it])"
  by (auto simp: generate_capsule_def build_30_outfits_def build_combos_def Let_def index_pairs_small)

section \<open>Properties of the capsule route\<close>

text \<open>
  Claim C9. For every store with fewer than two items, the capsule route returns the
  insufficient state: a page with no days, an empty item table and a message, which is not
  empty. It is a page, not an error, and it holds no partial capsule.
\<close>

theorem insufficient_wardrobe:
  assumes "get_item_count its < 2"
  shows "capsule cs its =
           Inr \<lparr>page_days = [], page_items = Map.empty, page_month_name = ''December'',
                page_year = 2025, page_message = Some insufficient_msg\<rparr>
         \<and> insufficient_msg \<noteq> []"
  using assms by (simp add: capsule_def insufficient_msg_def)
theorem insufficient_wardrobe_witness:
  "get_item_count solo_store < 2
   \<and> capsule cosine_near_09 solo_store =
       Inr \<lparr>page_days = [], page_items = Map.empty, page_month_name = ''December'',
            page_year = 2025, page_message = Some insufficient_msg\<rparr>"
  using insufficient_wardrobe [of solo_store cosine_near_09]
  by (simp add: get_item_count_def solo_store_counts)

end
